theory Spec2Isabelle
  imports Complex_Main
begin

section \<open>Data model of the OpenSeadragon viewer component\<close>

text \<open>
  JavaScript numbers are modelled as mathematical reals: the comparisons, additions and
  subtractions of the component are read over \<open>real\<close>, and the loop counters of the click
  disambiguation, which only ever hold whole numbers, over \<open>int\<close>.
\<close>

text \<open>A point \<open>{ x, y }\<close> of the viewer's world.\<close>

record point =
  point_x :: real
  point_y :: real

text \<open>
  An annotation resource as the component reads it: \<open>id\<close>, \<open>targetId\<close>, and the two selector
  properties, each of which may be absent (falsy). A fragment selector is the array
  \<open>[x, y, w, h]\<close>; an SVG selector is kept as a string.
\<close>

record resource =
  res_id :: string
  targetId :: string
  svgSelector :: "string option"
  fragmentSelector :: "(real \<times> real \<times> real \<times> real) option"

text \<open>An annotation list (\<open>annotations\<close> and \<open>searchAnnotations\<close> hold such lists).\<close>

record annotation =
  anno_id :: string
  resources :: "resource list"

record canvas =
  canvas_id :: string

text \<open>
  \<open>CanvasWorld\<close> is imported by the component; its class is not part of the sources at hand.
  The members the component calls are taken as fields: \<open>canvasAtPoint\<close> answers \<open>None\<close> for
  \<open>null\<close>, and \<open>canvasToWorldCoordinates\<close> gives the first two entries of the array the
  component destructures.
\<close>

record 'l canvasWorld =
  canvasAtPoint :: "point \<Rightarrow> canvas option"
  canvasToWorldCoordinates :: "string \<Rightarrow> real \<times> real"
  canvasIds :: "string list"
  layers :: 'l

text \<open>The application's viewport state \<open>{ x, y, zoom }\<close>.\<close>

record viewport_state =
  vp_x :: real
  vp_y :: real
  vp_zoom :: real

text \<open>
  An info response \<open>{ id, json }\<close>: \<open>json\<close> may be missing, and when present its \<open>@id\<close> may
  be undefined.
\<close>

record info_response =
  ir_id :: string
  ir_json :: "string option option"

text \<open>
  A IIIF Image API service descriptor with its conformance level, and an image resource:
  its \<open>id\<close>, its declared dimensions and its first image service, each of the last three
  possibly absent.
\<close>

datatype iiif_level = Level0 | Level1 | Level2

record iiif_service =
  service_id :: string
  profile :: iiif_level

record image =
  image_id :: string
  image_width :: "nat option"
  image_height :: "nat option"
  image_service :: "iiif_service option"

record 'l props =
  canvasWorld :: "'l canvasWorld"
  annotations :: "annotation list"
  searchAnnotations :: "annotation list"
  hoveredAnnotationIds :: "string list"
  selectedAnnotationId :: "string option"
  windowId :: string
  viewer :: "viewport_state option"
  drawAnnotations :: bool
  drawSearchAnnotations :: bool
  infoResponses :: "info_response list"
  nonTiledImages :: "image list"

text \<open>
  What the browser and the deep-zoom viewer answer: the viewport's \<open>pointFromPixel\<close>, the
  path strings \<open>CanvasAnnotationDisplay\<close> extracts from a resource, and the 2D context's
  \<open>isPointInPath\<close> on a \<open>Path2D\<close> built from such a string.
\<close>

record env =
  pointFromPixel :: "point \<Rightarrow> point"
  svgPaths :: "resource \<Rightarrow> string list"
  isPointInPath :: "string \<Rightarrow> real \<Rightarrow> real \<Rightarrow> bool"

text \<open>
  The spring targets of the deep-zoom viewer's viewport
  (\<open>viewport.centerSpringX.target.value\<close> and its siblings).
\<close>

record osd_viewport =
  centerSpringX :: real
  centerSpringY :: real
  zoomSpring :: real

text \<open>
  What a handler does to the outside, in order: the event field \<open>preventDefaultAction\<close> it
  sets, the callbacks of the props it invokes (\<open>selectAnnotation\<close>, \<open>deselectAnnotation\<close>,
  \<open>hoverAnnotation\<close>, \<open>updateViewport\<close>), and the calls it makes on the viewer and on
  itself (\<open>this.updateCanvas = this.canvasUpdateCallback()\<close>, \<open>forceRedraw\<close>, \<open>close\<close>,
  \<open>addAllImageSources\<close>, \<open>refreshTileProperties\<close>, \<open>viewport.panTo\<close>, \<open>viewport.zoomTo\<close>).
\<close>

datatype effect =
  PreventDefaultAction
  | SelectAnnotation string string string
  | DeselectAnnotation string string string
  | HoverAnnotation string "string list"
  | UpdateViewport string viewport_state
  | CanvasUpdateCallback
  | ForceRedraw
  | Close
  | AddAllImageSources bool
  | RefreshTileProperties
  | PanTo viewport_state bool
  | ZoomTo real viewport_state bool

text \<open>
  The component instance: the flag \<open>osdUpdating\<close> and the viewer it holds, of which the
  handlers read the viewport's spring targets.
\<close>

record component =
  osdUpdating :: bool
  viewport :: osd_viewport

section \<open>Hit testing\<close>

text \<open>\<open>isAnnotationAtPoint(resource, canvas, point)\<close>.\<close>

definition isAnnotationAtPoint :: "env \<Rightarrow> 'l props \<Rightarrow> resource \<Rightarrow> canvas \<Rightarrow> point \<Rightarrow> bool" where
  "isAnnotationAtPoint e p r c pt =
     (case canvasToWorldCoordinates (canvasWorld p) (canvas_id c) of (canvasX, canvasY) \<Rightarrow>
        let relativeX = point_x pt - canvasX;
            relativeY = point_y pt - canvasY
        in if svgSelector r \<noteq> None
           then list_ex (\<lambda>path. isPointInPath e path relativeX relativeY) (svgPaths e r)
           else (case fragmentSelector r of
                   Some (x, y, w, h) \<Rightarrow>
                     x \<le> relativeX \<and> relativeX \<le> (x + w)
                     \<and> y \<le> relativeY \<and> relativeY \<le> (y + h)
                 | None \<Rightarrow> False))"

text \<open>\<open>annotationsAtPoint(canvas, point)\<close>.\<close>

definition annotationsAtPoint :: "env \<Rightarrow> 'l props \<Rightarrow> canvas \<Rightarrow> point \<Rightarrow> resource list" where
  "annotationsAtPoint e p c pt =
     (let lists = annotations p @ searchAnnotations p
      in filter (\<lambda>r. if canvas_id c \<noteq> targetId r then False
                      else isAnnotationAtPoint e p r c pt)
           (concat (map resources lists)))"

section \<open>Click disambiguation\<close>

text \<open>
  The inner loop of \<open>annosWithClickScore\<close>:
  \<^verbatim>\<open>for (let yOffset = -1 * offset; yOffset <= offset; yOffset += 1)\<close>, with the running
  \<open>score\<close> as the last argument.
\<close>

function scoreYLoop ::
  "env \<Rightarrow> 'l props \<Rightarrow> resource \<Rightarrow> canvas \<Rightarrow> point \<Rightarrow> int \<Rightarrow> int \<Rightarrow> int \<Rightarrow> nat \<Rightarrow> nat" where
  "scoreYLoop e p a c pt offset xOffset yOffset n =
     (if yOffset \<le> offset
      then scoreYLoop e p a c pt offset xOffset (yOffset + 1)
             (if isAnnotationAtPoint e p a c
                   \<lparr>point_x = point_x pt + of_int xOffset, point_y = point_y pt + of_int yOffset\<rparr>
              then n + 1 else n)
      else n)"
  by pat_completeness auto
termination
  by (relation "measure (\<lambda>(e, p, a, c, pt, offset, xOffset, yOffset, n). nat (offset + 1 - yOffset))") auto

declare scoreYLoop.simps [simp del]

text \<open>The outer loop, \<^verbatim>\<open>for (let xOffset = -1 * offset; xOffset <= offset; xOffset += 1)\<close>.\<close>

function scoreXLoop ::
  "env \<Rightarrow> 'l props \<Rightarrow> resource \<Rightarrow> canvas \<Rightarrow> point \<Rightarrow> int \<Rightarrow> int \<Rightarrow> nat \<Rightarrow> nat" where
  "scoreXLoop e p a c pt offset xOffset n =
     (if xOffset \<le> offset
      then scoreXLoop e p a c pt offset (xOffset + 1)
             (scoreYLoop e p a c pt offset xOffset (-1 * offset) n)
      else n)"
  by pat_completeness auto
termination
  by (relation "measure (\<lambda>(e, p, a, c, pt, offset, xOffset, n). nat (offset + 1 - xOffset))") auto

declare scoreXLoop.simps [simp del]

text \<open>The object \<open>{ anno, score }\<close> the scoring closure returns.\<close>

record anno_with_score =
  anno :: resource
  score :: nat

definition annosWithClickScore ::
  "env \<Rightarrow> 'l props \<Rightarrow> canvas \<Rightarrow> point \<Rightarrow> int \<Rightarrow> resource \<Rightarrow> anno_with_score" where
  "annosWithClickScore e p c pt offset a =
     \<lparr>anno = a, score = scoreXLoop e p a c pt offset (-1 * offset) 0\<rparr>"

text \<open>
  \<open>sortBy(..., 'score')\<close> of lodash: a stable sort, ascending in the score. HOL's
  \<open>sort_key\<close> is the stable insertion sort.
\<close>

definition sortBy_score :: "anno_with_score list \<Rightarrow> anno_with_score list" where
  "sortBy_score xs = sort_key score xs"

text \<open>\<open>toggleAnnotation(targetId, id)\<close>.\<close>

definition toggleAnnotation :: "'l props \<Rightarrow> string \<Rightarrow> string \<Rightarrow> effect list" where
  "toggleAnnotation p tid i =
     (if selectedAnnotationId p = Some i
      then [DeselectAnnotation (windowId p) tid i]
      else [SelectAnnotation (windowId p) tid i])"

text \<open>
  \<open>onCanvasClick(event)\<close>, on the event's \<open>position\<close>; the result lists what the handler
  does, in order. The indices 0 and 1 are read only where the list has two entries or more.
\<close>

definition onCanvasClick :: "env \<Rightarrow> 'l props \<Rightarrow> point \<Rightarrow> effect list" where
  "onCanvasClick e p webPosition =
     (let pt = pointFromPixel e webPosition
      in case canvasAtPoint (canvasWorld p) pt of
           None \<Rightarrow> []
         | Some c \<Rightarrow>
             let annos = annotationsAtPoint e p c pt
             in (if length annos > 0 then [PreventDefaultAction] else [])
                @ (if length annos = 1
                   then toggleAnnotation p (targetId (annos ! 0)) (res_id (annos ! 0))
                   else if length annos > 0
                   then
                     let s50 = sortBy_score (map (annosWithClickScore e p c pt 50) annos)
                     in if score (s50 ! 0) \<noteq> score (s50 ! 1)
                        then toggleAnnotation p (targetId (anno (s50 ! 0))) (res_id (anno (s50 ! 0)))
                        else
                          let s150 = sortBy_score (map (annosWithClickScore e p c pt 150) annos)
                          in if score (s150 ! 0) \<noteq> score (s150 ! 1)
                             then toggleAnnotation p (targetId (anno (s150 ! 0)))
                                    (res_id (anno (s150 ! 0)))
                             else
                               let s500 = sortBy_score (map (annosWithClickScore e p c pt 500) annos)
                               in toggleAnnotation p (targetId (anno (s500 ! 0)))
                                    (res_id (anno (s500 ! 0)))
                   else []))"

text \<open>
  The scores the handler compares at one radius, in the order of the sorted array, and
  the score of one candidate.
\<close>

definition sortedScores :: "env \<Rightarrow> 'l props \<Rightarrow> canvas \<Rightarrow> point \<Rightarrow> int \<Rightarrow> resource list \<Rightarrow> nat list" where
  "sortedScores e p c pt offset annos =
     map score (sortBy_score (map (annosWithClickScore e p c pt offset) annos))"

definition clickScore :: "env \<Rightarrow> 'l props \<Rightarrow> canvas \<Rightarrow> point \<Rightarrow> int \<Rightarrow> resource \<Rightarrow> nat" where
  "clickScore e p c pt offset a = score (annosWithClickScore e p c pt offset a)"

text \<open>
  The radius at which the handler stops: 50 when the first two sorted scores differ there,
  else 150 when they differ there, else 500.
\<close>

definition clickRadius :: "env \<Rightarrow> 'l props \<Rightarrow> canvas \<Rightarrow> point \<Rightarrow> resource list \<Rightarrow> int" where
  "clickRadius e p c pt annos =
     (if sortedScores e p c pt 50 annos ! 0 \<noteq> sortedScores e p c pt 50 annos ! 1 then 50
      else if sortedScores e p c pt 150 annos ! 0 \<noteq> sortedScores e p c pt 150 annos ! 1 then 150
      else 500)"

section \<open>Hovering\<close>

text \<open>
  \<open>xor\<close> of lodash on two arrays: the values found in exactly one of them, each once, in
  order of first occurrence.
\<close>

definition uniq :: "'a list \<Rightarrow> 'a list" where
  "uniq xs = rev (remdups (rev xs))"

definition xor_list :: "'a list \<Rightarrow> 'a list \<Rightarrow> 'a list" where
  "xor_list xs ys = uniq (filter (\<lambda>x. x \<notin> set ys) xs @ filter (\<lambda>y. y \<notin> set xs) ys)"

text \<open>\<open>onCanvasMouseMove(event)\<close>, on the event's \<open>position\<close>.\<close>

definition onCanvasMouseMove :: "env \<Rightarrow> 'l props \<Rightarrow> point \<Rightarrow> effect list" where
  "onCanvasMouseMove e p webPosition =
     (let pt = pointFromPixel e webPosition
      in case canvasAtPoint (canvasWorld p) pt of
           None \<Rightarrow> []
         | Some c \<Rightarrow>
             let annos = annotationsAtPoint e p c pt
             in if length (xor_list (hoveredAnnotationIds p) (map res_id annos)) > 0
                then [HoverAnnotation (windowId p) (map res_id annos)]
                else [])"

section \<open>Viewport synchronisation\<close>

text \<open>\<open>Math.round\<close>: the nearest integer, a half going up.\<close>

definition Math_round :: "real \<Rightarrow> int" where
  "Math_round v = \<lfloor>v + 1 / 2\<rfloor>"

text \<open>\<open>onViewportChange(event)\<close>: forwards the viewer's state to the application.\<close>

definition onViewportChange :: "'l props \<Rightarrow> osd_viewport \<Rightarrow> effect list" where
  "onViewportChange p vp =
     [UpdateViewport (windowId p)
        \<lparr>vp_x = of_int (Math_round (centerSpringX vp)),
         vp_y = of_int (Math_round (centerSpringY vp)),
         vp_zoom = zoomSpring vp\<rparr>]"

text \<open>The static \<open>annotationsMatch(currentAnnotations, prevAnnotations)\<close>.\<close>

definition annotationsMatch :: "annotation list \<Rightarrow> annotation list \<Rightarrow> bool" where
  "annotationsMatch currentAnnotations prevAnnotations =
     (if length currentAnnotations = 0 \<and> length prevAnnotations = 0 then True
      else if length currentAnnotations \<noteq> length prevAnnotations then False
      else list_all
             (\<lambda>(a, index).
                let newIds = map res_id (resources a);
                    prevIds = map res_id (resources (prevAnnotations ! index))
                in if length newIds = 0 \<and> length prevIds = 0 then True
                   else if length newIds \<noteq> length prevIds then False
                   else if anno_id a = anno_id (prevAnnotations ! index) \<and> newIds = prevIds
                   then True
                   else False)
             (zip currentAnnotations [0 ..< length currentAnnotations]))"

text \<open>
  \<open>infoResponsesMatch(prevInfoResponses)\<close>; an index past the end of the previous array
  reads \<open>undefined\<close>, which is falsy.
\<close>

definition infoResponsesMatch :: "'l props \<Rightarrow> info_response list \<Rightarrow> bool" where
  "infoResponsesMatch p prevInfoResponses =
     (if length (infoResponses p) = 0 \<and> length prevInfoResponses = 0 then True
      else if length (infoResponses p) \<noteq> length prevInfoResponses then False
      else list_ex
             (\<lambda>(infoResponse, index).
                if \<not> index < length prevInfoResponses then False
                else case ir_json infoResponse of
                       None \<Rightarrow> False
                     | Some json_id \<Rightarrow>
                         if json_id = (case ir_json (prevInfoResponses ! index) of
                                         None \<Rightarrow> None | Some prev_id \<Rightarrow> prev_id)
                         then True
                         else False)
             (zip (infoResponses p) [0 ..< length (infoResponses p)]))"

text \<open>\<open>nonTiledImagedMatch(prevNonTiledImages)\<close>.\<close>

definition nonTiledImagedMatch :: "'l props \<Rightarrow> image list \<Rightarrow> bool" where
  "nonTiledImagedMatch p prevNonTiledImages =
     (if length (nonTiledImages p) = 0 \<and> length prevNonTiledImages = 0 then True
      else list_ex
             (\<lambda>(img, index).
                if \<not> index < length prevNonTiledImages then False
                else if image_id img = image_id (prevNonTiledImages ! index) then True
                else False)
             (zip (nonTiledImages p) [0 ..< length (nonTiledImages p)]))"

text \<open>
  \<open>componentDidUpdate(prevProps)\<close>, with the current props and the instance; \<open>isEqual\<close> is
  deep equality.
\<close>

definition componentDidUpdate :: "component \<Rightarrow> 'l props \<Rightarrow> 'l props \<Rightarrow> effect list" where
  "componentDidUpdate this p prevProps =
     (let annotationsUpdated = \<not> annotationsMatch (annotations p) (annotations prevProps);
          searchAnnotationsUpdated =
            \<not> annotationsMatch (searchAnnotations p) (searchAnnotations prevProps);
          hoveredAnnotationsUpdated =
            (length (xor_list (hoveredAnnotationIds p) (hoveredAnnotationIds prevProps)) > 0);
          selectedAnnotationsUpdated = (selectedAnnotationId p \<noteq> selectedAnnotationId prevProps);
          redrawAnnotations = (drawAnnotations p \<noteq> drawAnnotations prevProps
            \<or> drawSearchAnnotations p \<noteq> drawSearchAnnotations prevProps)
      in (if searchAnnotationsUpdated \<or> annotationsUpdated \<or> selectedAnnotationsUpdated
             \<or> hoveredAnnotationsUpdated \<or> redrawAnnotations
          then [CanvasUpdateCallback, ForceRedraw] else [])
         @ (if \<not> infoResponsesMatch p (infoResponses prevProps)
               \<or> \<not> nonTiledImagedMatch p (nonTiledImages prevProps)
            then
              let canvasesChanged =
                    \<not> (canvasIds (canvasWorld p) = canvasIds (canvasWorld prevProps))
              in [Close, AddAllImageSources (canvasesChanged \<or> viewer p = None)]
            else if \<not> (layers (canvasWorld p) = layers (canvasWorld prevProps))
            then [RefreshTileProperties]
            else (case viewer p of
                    None \<Rightarrow> []
                  | Some v \<Rightarrow>
                      if \<not> osdUpdating this
                      then (if vp_x v \<noteq> centerSpringX (viewport this)
                               \<or> vp_y v \<noteq> centerSpringY (viewport this)
                            then [PanTo v False] else [])
                           @ (if vp_zoom v \<noteq> zoomSpring (viewport this)
                              then [ZoomTo (vp_zoom v) v False] else [])
                      else [])))"

text \<open>
  What reaches a mounted component: the viewer's events \<open>animation-start\<close>,
  \<open>animation-finish\<close> and \<open>canvas-click\<close>, the tracker's mouse move, React's
  \<open>componentDidUpdate\<close>, and the viewer moving its own spring targets. Events that read the
  props carry the props of the moment (and the update its previous props).
\<close>

datatype 'l event =
  AnimationStart
  | AnimationFinish "'l props"
  | ComponentDidUpdate "'l props" "'l props"
  | CanvasClick "'l props" point
  | CanvasMouseMove "'l props" point
  | ViewerMoved osd_viewport

text \<open>
  One event: the new instance and what the handlers did. On \<open>animation-finish\<close> the two
  handlers run in the order they were added, \<open>onViewportChange\<close> and then the reset of the
  flag.
\<close>

fun dispatch :: "env \<Rightarrow> 'l event \<Rightarrow> component \<Rightarrow> component \<times> effect list" where
  "dispatch e AnimationStart this = (this\<lparr>osdUpdating := True\<rparr>, [])"
| "dispatch e (AnimationFinish p) this =
     (this\<lparr>osdUpdating := False\<rparr>, onViewportChange p (viewport this))"
| "dispatch e (ComponentDidUpdate p prevProps) this = (this, componentDidUpdate this p prevProps)"
| "dispatch e (CanvasClick p pos) this = (this, onCanvasClick e p pos)"
| "dispatch e (CanvasMouseMove p pos) this = (this, onCanvasMouseMove e p pos)"
| "dispatch e (ViewerMoved vp) this = (this\<lparr>viewport := vp\<rparr>, [])"

text \<open>A sequence of events, one after the other; the effects are collected in order.\<close>

fun run :: "env \<Rightarrow> 'l event list \<Rightarrow> component \<Rightarrow> component \<times> effect list" where
  "run e [] this = (this, [])"
| "run e (ev # evs) this =
     (case dispatch e ev this of (this', out) \<Rightarrow>
        (case run e evs this' of (this'', outs) \<Rightarrow> (this'', out @ outs)))"

fun isAnimationFinish :: "'l event \<Rightarrow> bool" where
  "isAnimationFinish (AnimationFinish p) = True"
| "isAnimationFinish ev = False"

fun isPanOrZoom :: "effect \<Rightarrow> bool" where
  "isPanOrZoom (PanTo v i) = True"
| "isPanOrZoom (ZoomTo z v i) = True"
| "isPanOrZoom x = False"

section \<open>Thumbnail resolution\<close>

text \<open>
  The thumbnail resolver, which the test file imports as \<open>src/lib/ThumbnailFactory\<close>, is
  absent from the sources; its test file is present. The definitions of this section follow
  the words of section 4.3 of the spec.
\<close>

text \<open>
  Modelled from the spec: the thumbnail request's size constraints
  \<open>{ maxWidth?, maxHeight? }\<close> and the resolved \<open>{ url, width, height }\<close> of the absent
  resolver.
\<close>

record constraints =
  maxWidth :: "nat option"
  maxHeight :: "nat option"

record thumbnail =
  thumb_url :: string
  thumb_width :: "nat option"
  thumb_height :: "nat option"

text \<open>A whole number in decimal, as a template string prints it.\<close>

definition digit_char :: "nat \<Rightarrow> char" where
  "digit_char d = ''0123456789'' ! d"

function string_of_nat :: "nat \<Rightarrow> string" where
  "string_of_nat n =
     (if n < 10 then [digit_char n] else string_of_nat (n div 10) @ [digit_char (n mod 10)])"
  by pat_completeness auto
termination
  by (relation "measure (\<lambda>n. n)") auto

declare string_of_nat.simps [simp del]

text \<open>
  Modelled from the spec: the fixed floor (120 units) of the absent resolver, below which
  thumbnails are not requested.
\<close>

definition minDimension :: nat where
  "minDimension = 120"

text \<open>
  Modelled from the spec: the best fit of the absent resolver inside a box of \<open>w\<close> by \<open>h\<close>
  for an image of \<open>ow\<close> by \<open>oh\<close>. The scale is the smaller of the two ratios
  (\<open>min(w/originalWidth, h/originalHeight)\<close>), and each resolved dimension is the scaled
  original, rounded.
\<close>

definition bestFit :: "nat \<Rightarrow> nat \<Rightarrow> nat \<Rightarrow> nat \<Rightarrow> nat \<times> nat" where
  "bestFit w h ow oh =
     (let scale = min (real w / real ow) (real h / real oh)
      in (nat (Math_round (scale * real ow)), nat (Math_round (scale * real oh))))"

text \<open>
  Modelled from the spec: the size parameter of the absent resolver for the constraints as
  they are given: \<open>"{w},"\<close>, \<open>",{h}"\<close>, \<open>"!{w},{h}"\<close>, and the default \<open>",120"\<close> when there
  is none.
\<close>

definition constraintSize :: "constraints \<Rightarrow> string" where
  "constraintSize c =
     (case (maxWidth c, maxHeight c) of
        (Some w, None) \<Rightarrow> string_of_nat w @ '',''
      | (None, Some h) \<Rightarrow> '','' @ string_of_nat h
      | (Some w, Some h) \<Rightarrow> ''!'' @ string_of_nat w @ '','' @ string_of_nat h
      | (None, None) \<Rightarrow> '','' @ string_of_nat minDimension)"

text \<open>
  Modelled from the spec: the size computation of section 4.3 for a level 1 or level 2
  service (the resolver is absent from the sources), on an image that declares its width
  \<open>ow\<close> and height \<open>oh\<close>: the size parameter and the resolved width and height. One
  constraint fixes its dimension and the other is scaled and rounded; two give the best
  fit; none is the default height of 120. When the computed width and height are both
  below the floor, the request becomes the best fit inside the floor box.
\<close>

definition targetSize :: "constraints \<Rightarrow> nat \<Rightarrow> nat \<Rightarrow> string \<times> nat \<times> nat" where
  "targetSize c ow oh =
     (let (tw, th) =
            (case (maxWidth c, maxHeight c) of
               (Some w, None) \<Rightarrow> (w, nat (Math_round (real w * real oh / real ow)))
             | (None, Some h) \<Rightarrow> (nat (Math_round (real h * real ow / real oh)), h)
             | (Some w, Some h) \<Rightarrow> bestFit w h ow oh
             | (None, None) \<Rightarrow>
                 (nat (Math_round (real minDimension * real ow / real oh)), minDimension))
      in if tw < minDimension \<and> th < minDimension
         then (''!'' @ string_of_nat minDimension @ '','' @ string_of_nat minDimension,
               fst (bestFit minDimension minDimension ow oh),
               snd (bestFit minDimension minDimension ow oh))
         else (constraintSize c, tw, th))"

text \<open>
  Modelled from the spec: the resolver's treatment of the resolved leaf image (section 4.3,
  steps 2 to 4), the resolver itself being absent from the sources. An image without an
  image service is static and is returned as declared. For a level 0 service the
  constraints are ignored: the URL is the service's base identifier and no width or height
  is resolved. For level 1 and 2 the URL is
  \<open>{serviceId}/full/{size}/0/default.jpg\<close>. The spec gives no rule for a level 1 or 2 image
  that declares no (or a zero) width or height; the model then prints the constraints as they
  are and resolves only what they name. Finding the leaf (step 1) is not modelled.
\<close>

definition leafThumbnail :: "image \<Rightarrow> constraints \<Rightarrow> thumbnail" where
  "leafThumbnail img c =
     (case image_service img of
        None \<Rightarrow>
          \<lparr>thumb_url = image_id img, thumb_width = image_width img, thumb_height = image_height img\<rparr>
      | Some s \<Rightarrow>
          (case profile s of
             Level0 \<Rightarrow> \<lparr>thumb_url = service_id s, thumb_width = None, thumb_height = None\<rparr>
           | _ \<Rightarrow>
               (let undimensioned =
                      \<lparr>thumb_url = service_id s @ ''/full/'' @ constraintSize c @ ''/0/default.jpg'',
                       thumb_width = maxWidth c, thumb_height = maxHeight c\<rparr>
                in case (image_width img, image_height img) of
                     (Some ow, Some oh) \<Rightarrow>
                       if ow = 0 \<or> oh = 0 then undimensioned
                       else (case targetSize c ow oh of
                               (size_param, tw, th) \<Rightarrow>
                                 \<lparr>thumb_url = service_id s @ ''/full/'' @ size_param
                                                @ ''/0/default.jpg'',
                                  thumb_width = Some tw, thumb_height = Some th\<rparr>)
                   | _ \<Rightarrow> undimensioned)))"


definition iiifLevel1Service :: image where
  "iiifLevel1Service =
     \<lparr>image_id = ''arbitrary-url'', image_width = Some 1000, image_height = Some 2000,
      image_service = Some \<lparr>service_id = ''http://example.com'', profile = Level1\<rparr>\<rparr>"

definition iiifLevel2Service :: image where
  "iiifLevel2Service =
     \<lparr>image_id = ''arbitrary-url'', image_width = Some 1000, image_height = Some 2000,
      image_service = Some \<lparr>service_id = ''http://example.com'', profile = Level2\<rparr>\<rparr>"

definition staticThumbnail :: image where
  "staticThumbnail =
     \<lparr>image_id = ''http://example.com'', image_width = Some 50, image_height = Some 70,
      image_service = None\<rparr>"

section \<open>A concrete world\<close>

text \<open>
  One canvas \<open>c1\<close> of 1000 by 1000 units placed at world offset (100, 0). The display
  extracts from a resource the one path its SVG selector holds, and the 2D context knows one
  path, a square of side 10 at the canvas origin.
\<close>

definition ex_canvas :: canvas where
  "ex_canvas = \<lparr>canvas_id = ''c1''\<rparr>"

definition ex_world :: "unit canvasWorld" where
  "ex_world =
     \<lparr>canvasAtPoint = (\<lambda>pt. if 100 \<le> point_x pt \<and> point_x pt \<le> 1100
                                  \<and> 0 \<le> point_y pt \<and> point_y pt \<le> 1000
                               then Some ex_canvas else None),
      canvasToWorldCoordinates = (\<lambda>i. (100, 0)),
      canvasIds = [''c1''],
      layers = ()\<rparr>"

definition ex_env :: env where
  "ex_env =
     \<lparr>pointFromPixel = (\<lambda>pt. pt),
      svgPaths = (\<lambda>r. case svgSelector r of None \<Rightarrow> [] | Some s \<Rightarrow> [s]),
      isPointInPath = (\<lambda>path x y. path = ''M0,0 L10,0 L10,10 L0,10 Z''
                                  \<and> 0 \<le> x \<and> x \<le> 10 \<and> 0 \<le> y \<and> y \<le> 10)\<rparr>"

definition ex_props :: "resource list \<Rightarrow> string list \<Rightarrow> unit props" where
  "ex_props rs hovered =
     \<lparr>canvasWorld = ex_world,
      annotations = [\<lparr>anno_id = ''list1'', resources = rs\<rparr>],
      searchAnnotations = [],
      hoveredAnnotationIds = hovered,
      selectedAnnotationId = None,
      windowId = ''w1'',
      viewer = None,
      drawAnnotations = True,
      drawSearchAnnotations = True,
      infoResponses = [],
      nonTiledImages = []\<rparr>"

definition ex_big :: resource where
  "ex_big = \<lparr>res_id = ''big'', targetId = ''c1'', svgSelector = None,
              fragmentSelector = Some (0, 0, 1000, 1000)\<rparr>"

definition ex_small :: resource where
  "ex_small = \<lparr>res_id = ''small'', targetId = ''c1'', svgSelector = None,
                fragmentSelector = Some (500, 500, 0, 0)\<rparr>"

definition ex_none :: resource where
  "ex_none = \<lparr>res_id = ''none'', targetId = ''c1'', svgSelector = None,
               fragmentSelector = None\<rparr>"

definition ex_twin :: resource where
  "ex_twin = \<lparr>res_id = ''twin'', targetId = ''c1'', svgSelector = None,
               fragmentSelector = Some (0, 0, 1000, 1000)\<rparr>"

definition ex_click :: point where
  "ex_click = \<lparr>point_x = 600, point_y = 500\<rparr>"

definition ex_off :: point where
  "ex_off = \<lparr>point_x = 0, point_y = 0\<rparr>"

definition ex_this :: component where
  "ex_this = \<lparr>osdUpdating = False,
              viewport = \<lparr>centerSpringX = 10.4, centerSpringY = - 2.5, zoomSpring = 1.7\<rparr>\<rparr>"

definition ex_viewer_props :: "unit props" where
  "ex_viewer_props = (ex_props [] [])\<lparr>viewer := Some \<lparr>vp_x = 3, vp_y = 4, vp_zoom = 2\<rparr>\<rparr>"

section \<open>Properties of hit testing\<close>

lemma annotationsAtPoint_set:
  "set (annotationsAtPoint e p c pt) =
     {r \<in> set (concat (map resources (annotations p @ searchAnnotations p))).
        targetId r = canvas_id c \<and> isAnnotationAtPoint e p r c pt}"
  by (auto simp: annotationsAtPoint_def Let_def)

lemma svg_selector_decides:
  assumes "svgSelector r \<noteq> None"
    and "canvasToWorldCoordinates (canvasWorld p) (canvas_id c) = (ox, oy)"
  shows "isAnnotationAtPoint e p r c pt
           = list_ex (\<lambda>path. isPointInPath e path (point_x pt - ox) (point_y pt - oy))
               (svgPaths e r)"
  using assms by (simp add: isAnnotationAtPoint_def Let_def)

text \<open>
  C2. An annotation resource carries exactly one of the two selectors. A resource of the
  annotation lists that targets the canvas and whose selector is the fragment selector
  \<open>[x, y, w, h]\<close> is among the annotations at a point exactly when the point, less the
  canvas's world offset, lies in the closed rectangle: the boundary is included.
\<close>

theorem rectangle_hit_test:
  assumes "r \<in> set (concat (map resources (annotations p @ searchAnnotations p)))"
    and "targetId r = canvas_id c"
    and "(svgSelector r = None) \<noteq> (fragmentSelector r = None)"
    and "fragmentSelector r = Some (x, y, w, h)"
    and "canvasToWorldCoordinates (canvasWorld p) (canvas_id c) = (ox, oy)"
  shows "r \<in> set (annotationsAtPoint e p c pt) \<longleftrightarrow>
           (x \<le> point_x pt - ox \<and> point_x pt - ox \<le> x + w
            \<and> y \<le> point_y pt - oy \<and> point_y pt - oy \<le> y + h)"
proof -
  from assms(3,4) have "svgSelector r = None" by simp
  with assms show ?thesis
    by (simp add: annotationsAtPoint_set isAnnotationAtPoint_def Let_def)
qed

theorem rectangle_hit_test_witness:
  "ex_big \<in> set (concat (map resources (annotations (ex_props [ex_big] [])
                                          @ searchAnnotations (ex_props [ex_big] []))))
   \<and> targetId ex_big = canvas_id ex_canvas
   \<and> (svgSelector ex_big = None) \<noteq> (fragmentSelector ex_big = None)
   \<and> fragmentSelector ex_big = Some (0, 0, 1000, 1000)
   \<and> canvasToWorldCoordinates (canvasWorld (ex_props [ex_big] [])) (canvas_id ex_canvas) = (100, 0)
   \<and> ex_big \<in> set (annotationsAtPoint ex_env (ex_props [ex_big] []) ex_canvas ex_click)
   \<and> ex_big \<in> set (annotationsAtPoint ex_env (ex_props [ex_big] []) ex_canvas
                       \<lparr>point_x = 1100, point_y = 1000\<rparr>)
   \<and> ex_big \<notin> set (annotationsAtPoint ex_env (ex_props [ex_big] []) ex_canvas
                       \<lparr>point_x = 1100.5, point_y = 500\<rparr>)"
proof -
  have h1: "ex_big \<in> set (concat (map resources (annotations (ex_props [ex_big] [])
                                          @ searchAnnotations (ex_props [ex_big] []))))"
    by (simp add: ex_props_def)
  have h2: "targetId ex_big = canvas_id ex_canvas"
    by (simp add: ex_big_def ex_canvas_def)
  have h3: "(svgSelector ex_big = None) \<noteq> (fragmentSelector ex_big = None)"
    by (simp add: ex_big_def)
  have h4: "fragmentSelector ex_big = Some (0, 0, 1000, 1000)"
    by (simp add: ex_big_def)
  have h5: "canvasToWorldCoordinates (canvasWorld (ex_props [ex_big] [])) (canvas_id ex_canvas) = (100, 0)"
    by (simp add: ex_props_def ex_world_def)
  note t = rectangle_hit_test [OF h1 h2 h3 h4 h5, of ex_env]
  have a: "ex_big \<in> set (annotationsAtPoint ex_env (ex_props [ex_big] []) ex_canvas ex_click)"
    using t [of ex_click] by (simp add: ex_click_def)
  have b: "ex_big \<in> set (annotationsAtPoint ex_env (ex_props [ex_big] []) ex_canvas
                       \<lparr>point_x = 1100, point_y = 1000\<rparr>)"
    using t [of "\<lparr>point_x = 1100, point_y = 1000\<rparr>"] by simp
  have c: "ex_big \<notin> set (annotationsAtPoint ex_env (ex_props [ex_big] []) ex_canvas
                       \<lparr>point_x = 1100.5, point_y = 500\<rparr>)"
    using t [of "\<lparr>point_x = 1100.5, point_y = 500\<rparr>"] by simp
  from h1 h2 h3 h4 h5 a b c show ?thesis by (intro conjI)
qed

text \<open>
  C9. A resource with neither an SVG selector nor a fragment selector is at no point, and
  is never among the annotations at a point; a world whose resources are all of that kind
  has no annotation at any point. The test is total: it answers \<open>False\<close>, it does not fail.
\<close>

theorem no_selector_never_hit:
  assumes "svgSelector r = None" and "fragmentSelector r = None"
  shows "isAnnotationAtPoint e p r c pt = False
         \<and> r \<notin> set (annotationsAtPoint e p c pt)
         \<and> annotationsAtPoint e (p\<lparr>annotations := [\<lparr>anno_id = a, resources = [r]\<rparr>],
                                     searchAnnotations := []\<rparr>) c pt = []"
  using assms by (simp add: annotationsAtPoint_def isAnnotationAtPoint_def Let_def split: prod.splits)

theorem no_selector_never_hit_witness:
  "svgSelector ex_none = None \<and> fragmentSelector ex_none = None
   \<and> isAnnotationAtPoint ex_env (ex_props [ex_none] []) ex_none ex_canvas ex_click = False
   \<and> ex_none \<notin> set (annotationsAtPoint ex_env (ex_props [ex_none] []) ex_canvas ex_click)
   \<and> annotationsAtPoint ex_env (ex_props [ex_none] []) ex_canvas ex_click = []"
proof -
  have h1: "svgSelector ex_none = None" and h2: "fragmentSelector ex_none = None"
    by (simp_all add: ex_none_def)
  have e: "(ex_props [ex_none] [])\<lparr>annotations := [\<lparr>anno_id = ''list1'', resources = [ex_none]\<rparr>],
                                     searchAnnotations := []\<rparr> = ex_props [ex_none] []"
    by (simp add: ex_props_def)
  show ?thesis
    using h1 h2 no_selector_never_hit [OF h1 h2, of ex_env "ex_props [ex_none] []" ex_canvas ex_click "''list1''"]
    by (simp only: e) simp
qed

section \<open>Properties of click disambiguation\<close>

lemma scoreYLoop_card:
  "scoreYLoop e p a c pt offset xOffset yOffset n =
     n + card {dy. yOffset \<le> dy \<and> dy \<le> offset
                 \<and> isAnnotationAtPoint e p a c
                      \<lparr>point_x = point_x pt + of_int xOffset, point_y = point_y pt + of_int dy\<rparr>}"
proof (induction e p a c pt offset xOffset yOffset n rule: scoreYLoop.induct)
  case (1 e p a c pt offset xOffset yOffset n)
  let ?P = "\<lambda>dy. isAnnotationAtPoint e p a c
                      \<lparr>point_x = point_x pt + of_int xOffset, point_y = point_y pt + of_int dy\<rparr>"
  show ?case
  proof (cases "yOffset \<le> offset")
    case False
    then have "{dy. yOffset \<le> dy \<and> dy \<le> offset \<and> ?P dy} = {}" by auto
    then have "card {dy. yOffset \<le> dy \<and> dy \<le> offset \<and> ?P dy} = 0"
      by (simp only: card.empty)
    with False show ?thesis by (simp add: scoreYLoop.simps [of e p a c pt offset xOffset yOffset n])
  next
    case True
    have fin: "finite {dy. yOffset + 1 \<le> dy \<and> dy \<le> offset \<and> ?P dy}"
      by (rule finite_subset [of _ "{yOffset + 1 .. offset}"]) auto
    have split: "{dy. yOffset \<le> dy \<and> dy \<le> offset \<and> ?P dy} =
        (if ?P yOffset then {yOffset} else {}) \<union> {dy. yOffset + 1 \<le> dy \<and> dy \<le> offset \<and> ?P dy}"
      using True by (auto simp: order_le_less)
    have notin: "yOffset \<notin> {dy. yOffset + 1 \<le> dy \<and> dy \<le> offset \<and> ?P dy}" by simp
    have "card {dy. yOffset \<le> dy \<and> dy \<le> offset \<and> ?P dy} =
        (if ?P yOffset then 1 else 0) + card {dy. yOffset + 1 \<le> dy \<and> dy \<le> offset \<and> ?P dy}"
      unfolding split using fin notin by (simp del: One_nat_def)
    then show ?thesis
      using True "1.IH" [OF True]
      by (simp add: scoreYLoop.simps [of e p a c pt offset xOffset yOffset n])
  qed
qed

lemma scoreXLoop_card:
  "scoreXLoop e p a c pt offset xOffset n =
     n + card {(dx, dy). xOffset \<le> dx \<and> dx \<le> offset \<and> - offset \<le> dy \<and> dy \<le> offset
                 \<and> isAnnotationAtPoint e p a c
                      \<lparr>point_x = point_x pt + of_int dx, point_y = point_y pt + of_int dy\<rparr>}"
proof (induction e p a c pt offset xOffset n rule: scoreXLoop.induct)
  case (1 e p a c pt offset xOffset n)
  let ?P = "\<lambda>dx dy. isAnnotationAtPoint e p a c
                      \<lparr>point_x = point_x pt + of_int dx, point_y = point_y pt + of_int dy\<rparr>"
  let ?S = "\<lambda>x0. {(dx, dy). x0 \<le> dx \<and> dx \<le> offset \<and> - offset \<le> dy \<and> dy \<le> offset \<and> ?P dx dy}"
  let ?col = "{dy. - offset \<le> dy \<and> dy \<le> offset \<and> ?P xOffset dy}"
  show ?case
  proof (cases "xOffset \<le> offset")
    case False
    then have "?S xOffset = {}" by auto
    then have "card (?S xOffset) = 0" by (simp only: card.empty)
    with False show ?thesis
      by (simp add: scoreXLoop.simps [of e p a c pt offset xOffset n])
  next
    case True
    have fin_rest: "finite (?S (xOffset + 1))"
      by (rule finite_subset [of _ "{xOffset + 1 .. offset} \<times> {- offset .. offset}"]) auto
    have fin_col: "finite ?col"
      by (rule finite_subset [of _ "{- offset .. offset}"]) auto
    have split: "?S xOffset = ({xOffset} \<times> ?col) \<union> ?S (xOffset + 1)"
      using True by (auto simp: order_le_less)
    have disj: "({xOffset} \<times> ?col) \<inter> ?S (xOffset + 1) = {}" by auto
    have "card (?S xOffset) = card ({xOffset} \<times> ?col) + card (?S (xOffset + 1))"
      unfolding split using fin_rest fin_col disj by (intro card_Un_disjoint) auto
    also have "card ({xOffset} \<times> ?col) = card ?col"
      by (simp add: card_cartesian_product_singleton)
    finally have c: "card (?S xOffset) = card ?col + card (?S (xOffset + 1))" .
    show ?thesis
      using True "1.IH" [OF True] c
      by (simp add: scoreXLoop.simps [of e p a c pt offset xOffset n] scoreYLoop_card)
  qed
qed

lemma clickScore_card:
  "clickScore e p c pt offset a =
     card {(dx, dy). - offset \<le> dx \<and> dx \<le> offset \<and> - offset \<le> dy \<and> dy \<le> offset
             \<and> isAnnotationAtPoint e p a c
                  \<lparr>point_x = point_x pt + of_int dx, point_y = point_y pt + of_int dy\<rparr>}"
  by (simp add: clickScore_def annosWithClickScore_def scoreXLoop_card)

lemma sort_key_head:
  "xs \<noteq> [] \<Longrightarrow>
     \<exists>pre post. xs = pre @ (sort_key f xs ! 0) # post
       \<and> (\<forall>b \<in> set pre. f (sort_key f xs ! 0) < f b)
       \<and> (\<forall>b \<in> set post. f (sort_key f xs ! 0) \<le> f b)"
proof (induction xs)
  case Nil
  then show ?case by simp
next
  case (Cons x xs)
  show ?case
  proof (cases "xs = []")
    case True
    then show ?thesis by (intro exI [of _ "[]"]) simp
  next
    case False
    define m where "m = sort_key f xs ! 0"
    from Cons.IH [OF False] obtain pre post where
      xs: "xs = pre @ m # post"
      and pre: "\<forall>b \<in> set pre. f m < f b"
      and post: "\<forall>b \<in> set post. f m \<le> f b"
      unfolding m_def by blast
    have "length (sort_key f xs) = length xs" by simp
    with False have "sort_key f xs \<noteq> []" by (metis length_0_conv)
    then obtain y ys where ys: "sort_key f xs = y # ys"
      by (cases "sort_key f xs") auto
    then have m: "m = y" by (simp add: m_def)
    have all: "\<forall>b \<in> set xs. f m \<le> f b"
    proof
      fix b assume "b \<in> set xs"
      then have "b \<in> set (pre @ m # post)" by (simp only: xs [symmetric])
      then show "f m \<le> f b" using pre post by auto
    qed
    show ?thesis
    proof (cases "f x \<le> f y")
      case True
      then have hd: "sort_key f (x # xs) ! 0 = x" by (simp add: ys)
      have le: "\<forall>b \<in> set xs. f x \<le> f b" using all True m by auto
      have "x # xs = [] @ x # xs \<and> (\<forall>b \<in> set []. f x < f b) \<and> (\<forall>b \<in> set xs. f x \<le> f b)"
        using le by simp
      then show ?thesis unfolding hd by blast
    next
      case False
      then have hd: "sort_key f (x # xs) ! 0 = m" by (simp add: ys m)
      have a: "x # xs = (x # pre) @ m # post" by (simp add: xs [symmetric])
      have b: "\<forall>b \<in> set (x # pre). f m < f b" using pre False m by auto
      show ?thesis unfolding hd using a b post by blast
    qed
  qed
qed

lemma map_insort_key: "map f (insort_key f x xs) = insort (f x) (map f xs)"
  by (induction xs) simp_all

lemma map_sort_key: "map f (sort_key f xs) = sort (map f xs)"
  by (induction xs) (simp_all add: map_insort_key)

lemma sortedScores_sort:
  "sortedScores e p c pt r annos = sort (map (clickScore e p c pt r) annos)"
proof -
  have "map score (map (annosWithClickScore e p c pt r) annos) = map (clickScore e p c pt r) annos"
    by (simp add: clickScore_def)
  then show ?thesis
    by (simp only: sortedScores_def sortBy_score_def map_sort_key)
qed

lemma sortedScores_nth:
  "i < length annos \<Longrightarrow>
     sortedScores e p c pt r annos ! i
       = score (sortBy_score (map (annosWithClickScore e p c pt r) annos) ! i)"
  by (simp add: sortedScores_def sortBy_score_def)

lemma click_head:
  assumes "annos \<noteq> []"
  shows "\<exists>pre a post. annos = pre @ a # post
           \<and> sortBy_score (map (annosWithClickScore e p c pt r) annos) ! 0
               = annosWithClickScore e p c pt r a
           \<and> (\<forall>b \<in> set pre. clickScore e p c pt r a < clickScore e p c pt r b)
           \<and> (\<forall>b \<in> set post. clickScore e p c pt r a \<le> clickScore e p c pt r b)"
proof -
  let ?g = "annosWithClickScore e p c pt r"
  define m where "m = sort_key score (map ?g annos) ! 0"
  from assms have "map ?g annos \<noteq> []" by simp
  from sort_key_head [OF this, of score] obtain pre' post' where
    d: "map ?g annos = pre' @ m # post'"
    and pre': "\<forall>b \<in> set pre'. score m < score b"
    and post': "\<forall>b \<in> set post'. score m \<le> score b"
    unfolding m_def by blast
  from d obtain pre a post where
    annos: "annos = pre @ a # post" and p1: "map ?g pre = pre'" and p2: "?g a = m"
    and p3: "map ?g post = post'"
    by (auto simp: map_eq_append_conv map_eq_Cons_conv)
  have A: "\<forall>b \<in> set pre. clickScore e p c pt r a < clickScore e p c pt r b"
    using pre' p1 p2 by (auto simp: clickScore_def)
  have B: "\<forall>b \<in> set post. clickScore e p c pt r a \<le> clickScore e p c pt r b"
    using post' p3 p2 by (auto simp: clickScore_def)
  have h: "sortBy_score (map ?g annos) ! 0 = ?g a"
    using p2 by (simp only: m_def sortBy_score_def)
  show ?thesis
  proof (intro exI conjI)
    show "annos = pre @ a # post" by (fact annos)
    show "sortBy_score (map ?g annos) ! 0 = ?g a" by (fact h)
    show "\<forall>b \<in> set pre. clickScore e p c pt r a < clickScore e p c pt r b" by (fact A)
    show "\<forall>b \<in> set post. clickScore e p c pt r a \<le> clickScore e p c pt r b" by (fact B)
  qed
qed

lemma onCanvasClick_many:
  assumes cv: "canvasAtPoint (canvasWorld p) (pointFromPixel e pos) = Some c"
    and an: "annotationsAtPoint e p c (pointFromPixel e pos) = annos"
    and len: "2 \<le> length annos"
  shows "onCanvasClick e p pos =
           PreventDefaultAction #
             toggleAnnotation p
               (targetId (anno (sortBy_score (map (annosWithClickScore e p c (pointFromPixel e pos)
                     (clickRadius e p c (pointFromPixel e pos) annos)) annos) ! 0)))
               (res_id (anno (sortBy_score (map (annosWithClickScore e p c (pointFromPixel e pos)
                     (clickRadius e p c (pointFromPixel e pos) annos)) annos) ! 0)))"
proof -
  have l0: "0 < length annos" and l1: "Suc 0 < length annos" and ne1: "length annos \<noteq> Suc 0"
    using len by auto
  show ?thesis
    using l0 ne1
    by (simp add: onCanvasClick_def cv an Let_def clickRadius_def
        sortedScores_nth [OF l0] sortedScores_nth [OF l1])
qed

lemma annosWithClickScore_eq:
  "annosWithClickScore e p c pt r a = \<lparr>anno = a, score = clickScore e p c pt r a\<rparr>"
  by (simp add: clickScore_def annosWithClickScore_def)

lemma ex_pointFromPixel: "pointFromPixel ex_env pt = pt"
  by (simp add: ex_env_def)

lemma ex_canvasAtPoint:
  "canvasAtPoint (canvasWorld (ex_props rs h)) ex_click = Some ex_canvas"
  by (simp add: ex_props_def ex_world_def ex_click_def)

lemma ex_annos_big_small:
  "annotationsAtPoint ex_env (ex_props [ex_big, ex_small] h) ex_canvas ex_click
     = [ex_big, ex_small]"
  by (simp add: annotationsAtPoint_def isAnnotationAtPoint_def Let_def ex_props_def ex_world_def
      ex_env_def ex_click_def ex_big_def ex_small_def ex_canvas_def)

lemma ex_score_big_50:
  "clickScore ex_env (ex_props rs h) ex_canvas ex_click 50 ex_big = 10201"
proof -
  have "{(dx, dy). - 50 \<le> dx \<and> dx \<le> 50 \<and> - 50 \<le> dy \<and> dy \<le> 50
           \<and> isAnnotationAtPoint ex_env (ex_props rs h) ex_big ex_canvas
                \<lparr>point_x = point_x ex_click + of_int dx, point_y = point_y ex_click + of_int dy\<rparr>}
        = {- 50 .. 50} \<times> {- 50 .. (50::int)}"
    by (auto simp: isAnnotationAtPoint_def Let_def ex_props_def ex_world_def ex_big_def
        ex_canvas_def ex_click_def)
  then show ?thesis
    by (simp add: clickScore_card card_cartesian_product)
qed

lemma ex_score_small_50:
  "clickScore ex_env (ex_props rs h) ex_canvas ex_click 50 ex_small = 1"
proof -
  have "{(dx, dy). - 50 \<le> dx \<and> dx \<le> 50 \<and> - 50 \<le> dy \<and> dy \<le> 50
           \<and> isAnnotationAtPoint ex_env (ex_props rs h) ex_small ex_canvas
                \<lparr>point_x = point_x ex_click + of_int dx, point_y = point_y ex_click + of_int dy\<rparr>}
        = {(0, 0)}"
    by (auto simp: isAnnotationAtPoint_def Let_def ex_props_def ex_world_def ex_small_def
        ex_canvas_def ex_click_def)
  then show ?thesis
    by (simp add: clickScore_card)
qed

lemma ex_annos_big_twin:
  "annotationsAtPoint ex_env (ex_props [ex_big, ex_twin] h) ex_canvas ex_click = [ex_big, ex_twin]"
  by (simp add: annotationsAtPoint_def isAnnotationAtPoint_def Let_def ex_props_def ex_world_def
      ex_env_def ex_click_def ex_big_def ex_twin_def ex_canvas_def)

lemma ex_score_twin:
  "clickScore ex_env (ex_props rs h) ex_canvas ex_click r ex_twin
     = clickScore ex_env (ex_props rs h) ex_canvas ex_click r ex_big"
  by (simp add: clickScore_card isAnnotationAtPoint_def ex_big_def ex_twin_def)

lemma ex_tie:
  "sortedScores ex_env (ex_props rs h) ex_canvas ex_click r [ex_big, ex_twin] ! 0
     = sortedScores ex_env (ex_props rs h) ex_canvas ex_click r [ex_big, ex_twin] ! 1"
  by (simp add: sortedScores_sort ex_score_twin)

lemma ex_annos_big_twin_small:
  "annotationsAtPoint ex_env (ex_props [ex_big, ex_twin, ex_small] h) ex_canvas ex_click
     = [ex_big, ex_twin, ex_small]"
  by (simp add: annotationsAtPoint_def isAnnotationAtPoint_def Let_def ex_props_def ex_world_def
      ex_env_def ex_click_def ex_big_def ex_twin_def ex_small_def ex_canvas_def)

lemma ex_score_big:
  assumes "0 \<le> r" and "r \<le> 500"
  shows "clickScore ex_env (ex_props rs h) ex_canvas ex_click r ex_big = nat (2 * r + 1) * nat (2 * r + 1)"
proof -
  have "{(dx, dy). - r \<le> dx \<and> dx \<le> r \<and> - r \<le> dy \<and> dy \<le> r
           \<and> isAnnotationAtPoint ex_env (ex_props rs h) ex_big ex_canvas
                \<lparr>point_x = point_x ex_click + of_int dx, point_y = point_y ex_click + of_int dy\<rparr>}
        = {- r .. r} \<times> {- r .. r}"
    using assms
    by (auto simp: isAnnotationAtPoint_def Let_def ex_props_def ex_world_def ex_big_def
        ex_canvas_def ex_click_def)
  moreover have "card {- r .. r} = nat (2 * r + 1)" by simp
  ultimately show ?thesis
    by (simp only: clickScore_card card_cartesian_product)
qed

lemma ex_score_small:
  assumes "0 \<le> r"
  shows "clickScore ex_env (ex_props rs h) ex_canvas ex_click r ex_small = 1"
proof -
  have "{(dx, dy). - r \<le> dx \<and> dx \<le> r \<and> - r \<le> dy \<and> dy \<le> r
           \<and> isAnnotationAtPoint ex_env (ex_props rs h) ex_small ex_canvas
                \<lparr>point_x = point_x ex_click + of_int dx, point_y = point_y ex_click + of_int dy\<rparr>}
        = {(0, 0)}"
    using assms
    by (auto simp: isAnnotationAtPoint_def Let_def ex_props_def ex_world_def ex_small_def
        ex_canvas_def ex_click_def)
  then show ?thesis
    by (simp add: clickScore_card)
qed

text \<open>
  C1 (as amended). When the click hits two annotations or more, the handler prevents the
  default action and toggles one of the candidates, and that candidate has the lowest
  locality score at the radius where the handler stops (\<open>clickRadius\<close>: 50, else 150, else
  500, the first at which the two lowest scores differ, 500 if none). The sorted scores are
  the candidates' scores in ascending order, so entries 0 and 1 are the two lowest. The
  score of a candidate at radius \<open>r\<close> is the number of integer offsets \<open>(dx, dy)\<close> with
  \<open>-r \<le> dx \<le> r\<close> and \<open>-r \<le> dy \<le> r\<close> for which the clicked point moved by the offset is
  inside the candidate's shape.
\<close>

theorem click_selects_lowest_score:
  assumes cv: "canvasAtPoint (canvasWorld p) (pointFromPixel e pos) = Some c"
    and an: "annotationsAtPoint e p c (pointFromPixel e pos) = annos"
    and len: "2 \<le> length annos"
  shows "(\<exists>a. a \<in> set annos
            \<and> onCanvasClick e p pos
                = PreventDefaultAction # toggleAnnotation p (targetId a) (res_id a)
            \<and> (\<forall>b \<in> set annos.
                  clickScore e p c (pointFromPixel e pos)
                      (clickRadius e p c (pointFromPixel e pos) annos) a
                  \<le> clickScore e p c (pointFromPixel e pos)
                      (clickRadius e p c (pointFromPixel e pos) annos) b))
         \<and> (\<forall>r. sortedScores e p c (pointFromPixel e pos) r annos
                   = sort (map (clickScore e p c (pointFromPixel e pos) r) annos))
         \<and> (\<forall>r b. clickScore e p c (pointFromPixel e pos) r b
                = card {(dx, dy). - r \<le> dx \<and> dx \<le> r \<and> - r \<le> dy \<and> dy \<le> r
                          \<and> isAnnotationAtPoint e p b c
                               \<lparr>point_x = point_x (pointFromPixel e pos) + of_int dx,
                                  point_y = point_y (pointFromPixel e pos) + of_int dy\<rparr>})"
proof -
  let ?pt = "pointFromPixel e pos"
  let ?r = "clickRadius e p c ?pt annos"
  from len have ne: "annos \<noteq> []" by auto
  from click_head [OF ne, of e p c ?pt ?r] obtain pre a post where
    d: "annos = pre @ a # post"
    and h: "sortBy_score (map (annosWithClickScore e p c ?pt ?r) annos) ! 0
              = annosWithClickScore e p c ?pt ?r a"
    and pre: "\<forall>b \<in> set pre. clickScore e p c ?pt ?r a < clickScore e p c ?pt ?r b"
    and post: "\<forall>b \<in> set post. clickScore e p c ?pt ?r a \<le> clickScore e p c ?pt ?r b"
    by blast
  have mem: "a \<in> set annos" by (subst d) simp
  have low: "\<forall>b \<in> set annos. clickScore e p c ?pt ?r a \<le> clickScore e p c ?pt ?r b"
  proof
    fix b assume "b \<in> set annos"
    then have "b \<in> set pre \<or> b = a \<or> b \<in> set post" by (subst (asm) d) auto
    then show "clickScore e p c ?pt ?r a \<le> clickScore e p c ?pt ?r b"
      using pre post by (auto simp: less_imp_le)
  qed
  have sel: "onCanvasClick e p pos = PreventDefaultAction # toggleAnnotation p (targetId a) (res_id a)"
    by (simp add: onCanvasClick_many [OF cv an len] h annosWithClickScore_def)
  have part1: "\<exists>a. a \<in> set annos
            \<and> onCanvasClick e p pos
                = PreventDefaultAction # toggleAnnotation p (targetId a) (res_id a)
            \<and> (\<forall>b \<in> set annos. clickScore e p c ?pt ?r a \<le> clickScore e p c ?pt ?r b)"
    using mem low sel by blast
  show ?thesis
    by (intro conjI allI part1 sortedScores_sort clickScore_card)
qed

theorem click_selects_lowest_score_witness:
  "canvasAtPoint (canvasWorld (ex_props [ex_big, ex_small] [])) (pointFromPixel ex_env ex_click)
     = Some ex_canvas
   \<and> annotationsAtPoint ex_env (ex_props [ex_big, ex_small] []) ex_canvas
         (pointFromPixel ex_env ex_click) = [ex_big, ex_small]
   \<and> 2 \<le> length [ex_big, ex_small]
   \<and> (\<exists>a. a \<in> set [ex_big, ex_small]
          \<and> onCanvasClick ex_env (ex_props [ex_big, ex_small] []) ex_click
              = PreventDefaultAction
                  # toggleAnnotation (ex_props [ex_big, ex_small] []) (targetId a) (res_id a)
          \<and> (\<forall>b \<in> set [ex_big, ex_small].
                clickScore ex_env (ex_props [ex_big, ex_small] []) ex_canvas ex_click
                    (clickRadius ex_env (ex_props [ex_big, ex_small] []) ex_canvas ex_click
                       [ex_big, ex_small]) a
                \<le> clickScore ex_env (ex_props [ex_big, ex_small] []) ex_canvas ex_click
                    (clickRadius ex_env (ex_props [ex_big, ex_small] []) ex_canvas ex_click
                       [ex_big, ex_small]) b))"
proof -
  have h1: "canvasAtPoint (canvasWorld (ex_props [ex_big, ex_small] []))
              (pointFromPixel ex_env ex_click) = Some ex_canvas"
    by (simp add: ex_pointFromPixel ex_canvasAtPoint)
  have h2: "annotationsAtPoint ex_env (ex_props [ex_big, ex_small] []) ex_canvas
              (pointFromPixel ex_env ex_click) = [ex_big, ex_small]"
    by (simp add: ex_pointFromPixel ex_annos_big_small)
  have h3: "2 \<le> length [ex_big, ex_small]" by simp
  from click_selects_lowest_score [OF h1 h2 h3]
  have "\<exists>a. a \<in> set [ex_big, ex_small]
          \<and> onCanvasClick ex_env (ex_props [ex_big, ex_small] []) ex_click
              = PreventDefaultAction
                  # toggleAnnotation (ex_props [ex_big, ex_small] []) (targetId a) (res_id a)
          \<and> (\<forall>b \<in> set [ex_big, ex_small].
                clickScore ex_env (ex_props [ex_big, ex_small] []) ex_canvas ex_click
                    (clickRadius ex_env (ex_props [ex_big, ex_small] []) ex_canvas ex_click
                       [ex_big, ex_small]) a
                \<le> clickScore ex_env (ex_props [ex_big, ex_small] []) ex_canvas ex_click
                    (clickRadius ex_env (ex_props [ex_big, ex_small] []) ex_canvas ex_click
                       [ex_big, ex_small]) b)"
    unfolding ex_pointFromPixel by (rule conjunct1)
  with h1 h2 h3 show ?thesis by (intro conjI)
qed

text \<open>
  C1 as stated, with the highest score selected, fails. The click at (600, 500) hits
  \<open>ex_big\<close> (score 10201 at radius 50) and \<open>ex_small\<close> (score 1); the scores differ at the
  first radius and the handler selects \<open>ex_small\<close>, the candidate with the lowest score.
\<close>

theorem click_selects_lowest_score_counterexample:
  "annotationsAtPoint ex_env (ex_props [ex_big, ex_small] []) ex_canvas (pointFromPixel ex_env ex_click)
     = [ex_big, ex_small]
   \<and> clickScore ex_env (ex_props [ex_big, ex_small] []) ex_canvas (pointFromPixel ex_env ex_click) 50 ex_big = 10201
   \<and> clickScore ex_env (ex_props [ex_big, ex_small] []) ex_canvas (pointFromPixel ex_env ex_click) 50 ex_small = 1
   \<and> onCanvasClick ex_env (ex_props [ex_big, ex_small] []) ex_click
       = [PreventDefaultAction, SelectAnnotation ''w1'' ''c1'' ''small'']
   \<and> res_id ex_big = ''big''"
proof -
  have click: "onCanvasClick ex_env (ex_props [ex_big, ex_small] []) ex_click
       = [PreventDefaultAction, SelectAnnotation ''w1'' ''c1'' ''small'']"
    unfolding onCanvasClick_def
    by (simp add: ex_canvasAtPoint ex_annos_big_small Let_def annosWithClickScore_eq sortBy_score_def
        ex_pointFromPixel ex_score_big_50 ex_score_small_50 toggleAnnotation_def)
       (simp add: ex_props_def ex_small_def)
  show ?thesis
    using click by (simp add: ex_annos_big_small ex_pointFromPixel ex_score_big_50 ex_score_small_50) (simp add: ex_big_def)
qed

text \<open>
  C6 (as amended). When the two lowest scores are equal at radius 50, at radius 150 and at
  radius 500, the handler toggles the candidate that comes first, in the order of the list
  of annotations at the point, among those with the lowest score at radius 500: every
  candidate before it scores strictly more, every candidate after it at least as much. When
  all candidates have the same score there, it is the first of the list. The outcome is a
  function of the list, so a fixed order always gives the same selection.
\<close>

theorem click_tie_selects_first:
  assumes cv: "canvasAtPoint (canvasWorld p) (pointFromPixel e pos) = Some c"
    and an: "annotationsAtPoint e p c (pointFromPixel e pos) = annos"
    and len: "2 \<le> length annos"
    and t50: "sortedScores e p c (pointFromPixel e pos) 50 annos ! 0
                = sortedScores e p c (pointFromPixel e pos) 50 annos ! 1"
    and t150: "sortedScores e p c (pointFromPixel e pos) 150 annos ! 0
                = sortedScores e p c (pointFromPixel e pos) 150 annos ! 1"
    and t500: "sortedScores e p c (pointFromPixel e pos) 500 annos ! 0
                = sortedScores e p c (pointFromPixel e pos) 500 annos ! 1"
  shows "\<exists>pre a post. annos = pre @ a # post
           \<and> onCanvasClick e p pos
               = PreventDefaultAction # toggleAnnotation p (targetId a) (res_id a)
           \<and> clickScore e p c (pointFromPixel e pos) 500 a
               = sortedScores e p c (pointFromPixel e pos) 500 annos ! 0
           \<and> (\<forall>b \<in> set pre. clickScore e p c (pointFromPixel e pos) 500 a
                                 < clickScore e p c (pointFromPixel e pos) 500 b)
           \<and> (\<forall>b \<in> set post. clickScore e p c (pointFromPixel e pos) 500 a
                                 \<le> clickScore e p c (pointFromPixel e pos) 500 b)
           \<and> ((\<forall>b \<in> set annos. clickScore e p c (pointFromPixel e pos) 500 b
                                     = clickScore e p c (pointFromPixel e pos) 500 a)
                \<longrightarrow> pre = [] \<and> a = annos ! 0)"
proof -
  let ?pt = "pointFromPixel e pos"
  from len have ne: "annos \<noteq> []" and l0: "0 < length annos" by auto
  have r: "clickRadius e p c ?pt annos = 500"
    using t50 t150 by (simp add: clickRadius_def)
  from click_head [OF ne, of e p c ?pt 500] obtain pre a post where
    d: "annos = pre @ a # post"
    and h: "sortBy_score (map (annosWithClickScore e p c ?pt 500) annos) ! 0
              = annosWithClickScore e p c ?pt 500 a"
    and pre: "\<forall>b \<in> set pre. clickScore e p c ?pt 500 a < clickScore e p c ?pt 500 b"
    and post: "\<forall>b \<in> set post. clickScore e p c ?pt 500 a \<le> clickScore e p c ?pt 500 b"
    by blast
  have sel: "onCanvasClick e p pos = PreventDefaultAction # toggleAnnotation p (targetId a) (res_id a)"
    by (simp add: onCanvasClick_many [OF cv an len] r h annosWithClickScore_def)
  have sc: "clickScore e p c ?pt 500 a = sortedScores e p c ?pt 500 annos ! 0"
    by (simp add: sortedScores_nth [OF l0] h clickScore_def)
  have first: "(\<forall>b \<in> set annos. clickScore e p c ?pt 500 b = clickScore e p c ?pt 500 a)
                \<longrightarrow> pre = [] \<and> a = annos ! 0"
  proof
    assume eq: "\<forall>b \<in> set annos. clickScore e p c ?pt 500 b = clickScore e p c ?pt 500 a"
    have "pre = []"
    proof (rule ccontr)
      assume "pre \<noteq> []"
      then obtain b where b: "b \<in> set pre" by (cases pre) auto
      then have "b \<in> set annos" by (subst d) simp
      with eq have "clickScore e p c ?pt 500 b = clickScore e p c ?pt 500 a" by blast
      with pre b show False by auto
    qed
    moreover from this have "a = annos ! 0" by (subst d) simp
    ultimately show "pre = [] \<and> a = annos ! 0" by blast
  qed
  show ?thesis
  proof (intro exI conjI)
    show "annos = pre @ a # post" by (fact d)
  qed (fact sel sc pre post first)+
qed

theorem click_tie_selects_first_witness:
  "canvasAtPoint (canvasWorld (ex_props [ex_big, ex_twin] [])) (pointFromPixel ex_env ex_click)
     = Some ex_canvas
   \<and> annotationsAtPoint ex_env (ex_props [ex_big, ex_twin] []) ex_canvas
         (pointFromPixel ex_env ex_click) = [ex_big, ex_twin]
   \<and> 2 \<le> length [ex_big, ex_twin]
   \<and> sortedScores ex_env (ex_props [ex_big, ex_twin] []) ex_canvas (pointFromPixel ex_env ex_click)
         50 [ex_big, ex_twin] ! 0
       = sortedScores ex_env (ex_props [ex_big, ex_twin] []) ex_canvas (pointFromPixel ex_env ex_click)
         50 [ex_big, ex_twin] ! 1
   \<and> sortedScores ex_env (ex_props [ex_big, ex_twin] []) ex_canvas (pointFromPixel ex_env ex_click)
         150 [ex_big, ex_twin] ! 0
       = sortedScores ex_env (ex_props [ex_big, ex_twin] []) ex_canvas (pointFromPixel ex_env ex_click)
         150 [ex_big, ex_twin] ! 1
   \<and> sortedScores ex_env (ex_props [ex_big, ex_twin] []) ex_canvas (pointFromPixel ex_env ex_click)
         500 [ex_big, ex_twin] ! 0
       = sortedScores ex_env (ex_props [ex_big, ex_twin] []) ex_canvas (pointFromPixel ex_env ex_click)
         500 [ex_big, ex_twin] ! 1
   \<and> onCanvasClick ex_env (ex_props [ex_big, ex_twin] []) ex_click
       = [PreventDefaultAction, SelectAnnotation ''w1'' ''c1'' ''big'']"
proof -
  let ?p = "ex_props [ex_big, ex_twin] []"
  let ?pt = "pointFromPixel ex_env ex_click"
  have h1: "canvasAtPoint (canvasWorld ?p) ?pt = Some ex_canvas"
    by (simp add: ex_pointFromPixel ex_canvasAtPoint)
  have h2: "annotationsAtPoint ex_env ?p ex_canvas ?pt = [ex_big, ex_twin]"
    by (simp add: ex_pointFromPixel ex_annos_big_twin)
  have h3: "2 \<le> length [ex_big, ex_twin]" by simp
  have t: "sortedScores ex_env ?p ex_canvas ?pt r [ex_big, ex_twin] ! 0
             = sortedScores ex_env ?p ex_canvas ?pt r [ex_big, ex_twin] ! 1" for r
    unfolding ex_pointFromPixel by (rule ex_tie)
  from click_tie_selects_first [OF h1 h2 h3 t t t] obtain pre a post where
    sel: "onCanvasClick ex_env ?p ex_click
            = PreventDefaultAction # toggleAnnotation ?p (targetId a) (res_id a)"
    and first: "(\<forall>b \<in> set [ex_big, ex_twin]. clickScore ex_env ?p ex_canvas ?pt 500 b
                     = clickScore ex_env ?p ex_canvas ?pt 500 a)
                \<longrightarrow> pre = [] \<and> a = [ex_big, ex_twin] ! 0"
    and d: "[ex_big, ex_twin] = pre @ a # post"
    by blast
  have "a = ex_big \<or> a = ex_twin"
  proof -
    have "a \<in> set (pre @ a # post)" by simp
    then have "a \<in> set [ex_big, ex_twin]" by (simp only: d [symmetric])
    then show ?thesis by simp
  qed
  then have "\<forall>b \<in> set [ex_big, ex_twin]. clickScore ex_env ?p ex_canvas ?pt 500 b
                     = clickScore ex_env ?p ex_canvas ?pt 500 a"
    by (auto simp: ex_pointFromPixel ex_score_twin)
  with first have "a = ex_big" by simp
  with sel have "onCanvasClick ex_env ?p ex_click
       = [PreventDefaultAction, SelectAnnotation ''w1'' ''c1'' ''big'']"
    by (simp add: toggleAnnotation_def ex_props_def ex_big_def)
  with h1 h2 h3 t [of 50] t [of 150] t [of 500] show ?thesis by (intro conjI)
qed

text \<open>
  C6 as stated fails: with the candidates \<open>ex_big\<close>, \<open>ex_twin\<close>, \<open>ex_small\<close> in this
  order, the two highest scores are equal at every radius (10201, 90601 and 1002001 for
  both \<open>ex_big\<close> and \<open>ex_twin\<close>, against 1 for \<open>ex_small\<close>), and the handler selects
  neither the first candidate of the list nor the first of the tied ones, but \<open>ex_small\<close>.
\<close>

theorem click_tie_selects_first_counterexample:
  "annotationsAtPoint ex_env (ex_props [ex_big, ex_twin, ex_small] []) ex_canvas
       (pointFromPixel ex_env ex_click) = [ex_big, ex_twin, ex_small]
   \<and> map (\<lambda>a. clickScore ex_env (ex_props [ex_big, ex_twin, ex_small] []) ex_canvas
                 (pointFromPixel ex_env ex_click) 50 a) [ex_big, ex_twin, ex_small]
       = [10201, 10201, 1]
   \<and> map (\<lambda>a. clickScore ex_env (ex_props [ex_big, ex_twin, ex_small] []) ex_canvas
                 (pointFromPixel ex_env ex_click) 150 a) [ex_big, ex_twin, ex_small]
       = [90601, 90601, 1]
   \<and> map (\<lambda>a. clickScore ex_env (ex_props [ex_big, ex_twin, ex_small] []) ex_canvas
                 (pointFromPixel ex_env ex_click) 500 a) [ex_big, ex_twin, ex_small]
       = [1002001, 1002001, 1]
   \<and> onCanvasClick ex_env (ex_props [ex_big, ex_twin, ex_small] []) ex_click
       = [PreventDefaultAction, SelectAnnotation ''w1'' ''c1'' ''small'']
   \<and> res_id ex_big = ''big'' \<and> res_id ex_twin = ''twin''"
proof -
  have s50: "clickScore ex_env (ex_props [ex_big, ex_twin, ex_small] []) ex_canvas ex_click 50 ex_big = 10201"
    using ex_score_big [of 50] by simp
  have s150: "clickScore ex_env (ex_props [ex_big, ex_twin, ex_small] []) ex_canvas ex_click 150 ex_big = 90601"
    using ex_score_big [of 150] by simp
  have s500: "clickScore ex_env (ex_props [ex_big, ex_twin, ex_small] []) ex_canvas ex_click 500 ex_big = 1002001"
    using ex_score_big [of 500] by simp
  have click: "onCanvasClick ex_env (ex_props [ex_big, ex_twin, ex_small] []) ex_click
       = [PreventDefaultAction, SelectAnnotation ''w1'' ''c1'' ''small'']"
    unfolding onCanvasClick_def
    by (simp add: ex_canvasAtPoint ex_annos_big_twin_small Let_def annosWithClickScore_eq
        sortBy_score_def ex_pointFromPixel ex_score_twin s50 ex_score_small toggleAnnotation_def)
       (simp add: ex_props_def ex_small_def)
  have ids: "res_id ex_big = ''big'' \<and> res_id ex_twin = ''twin''"
    by (simp add: ex_big_def ex_twin_def)
  show ?thesis
    using click ids
    by (simp add: ex_annos_big_twin_small ex_pointFromPixel ex_score_twin s50 s150 s500 ex_score_small)
qed

section \<open>Properties of hovering\<close>

lemma set_uniq: "set (uniq xs) = set xs"
  by (simp add: uniq_def)

lemma set_xor_list: "set (xor_list xs ys) = (set xs - set ys) \<union> (set ys - set xs)"
  by (auto simp: xor_list_def set_uniq)

lemma xor_list_nonempty: "length (xor_list xs ys) > 0 \<longleftrightarrow> set xs \<noteq> set ys"
proof -
  have "length (xor_list xs ys) > 0 \<longleftrightarrow> set (xor_list xs ys) \<noteq> {}" by simp
  also have "\<dots> \<longleftrightarrow> set xs \<noteq> set ys" by (auto simp: set_xor_list)
  finally show ?thesis .
qed

lemma xor_list_Nil: "xor_list xs ys = [] \<longleftrightarrow> set xs = set ys"
  using xor_list_nonempty [of xs ys] by simp

lemma annotationsAtPoint_hovered:
  "annotationsAtPoint e (p\<lparr>hoveredAnnotationIds := h\<rparr>) c pt = annotationsAtPoint e p c pt"
  by (simp add: annotationsAtPoint_def isAnnotationAtPoint_def)

lemma onCanvasMouseMove_on_canvas:
  assumes "canvasAtPoint (canvasWorld p) (pointFromPixel e pos) = Some c"
  shows "onCanvasMouseMove e p pos =
           (if set (hoveredAnnotationIds p)
                 \<noteq> set (map res_id (annotationsAtPoint e p c (pointFromPixel e pos)))
            then [HoverAnnotation (windowId p)
                    (map res_id (annotationsAtPoint e p c (pointFromPixel e pos)))]
            else [])"
  using assms by (simp add: onCanvasMouseMove_def Let_def xor_list_Nil)

lemma ex_annos_big:
  "annotationsAtPoint ex_env (ex_props [ex_big] h) ex_canvas ex_click = [ex_big]"
  by (simp add: annotationsAtPoint_def isAnnotationAtPoint_def Let_def ex_props_def ex_world_def
      ex_click_def ex_big_def ex_canvas_def)

text \<open>
  C5. On a mouse move over a canvas, \<open>hoverAnnotation\<close> is called, with the ids of the
  annotations at the point, when the set of those ids differs from the set of the hovered
  ids of the props, and nothing is called when the two sets are equal; the sets differ
  exactly when lodash's \<open>xor\<close> of the two arrays is not empty. Once the hovered ids of the
  props are the ids that were notified, a further mouse move to any point with the same set
  of ids calls nothing.
\<close>

theorem hover_iff_changed:
  assumes cv: "canvasAtPoint (canvasWorld p) (pointFromPixel e pos) = Some c"
    and ids: "ids = map res_id (annotationsAtPoint e p c (pointFromPixel e pos))"
  shows "(set (hoveredAnnotationIds p) \<noteq> set ids
            \<longrightarrow> onCanvasMouseMove e p pos = [HoverAnnotation (windowId p) ids])
         \<and> (set (hoveredAnnotationIds p) = set ids \<longrightarrow> onCanvasMouseMove e p pos = [])
         \<and> (set (hoveredAnnotationIds p) \<noteq> set ids
              \<longleftrightarrow> set (xor_list (hoveredAnnotationIds p) ids) \<noteq> {})
         \<and> (\<forall>pos' c'.
               canvasAtPoint (canvasWorld p) (pointFromPixel e pos') = Some c'
               \<and> set (map res_id (annotationsAtPoint e p c' (pointFromPixel e pos'))) = set ids
               \<longrightarrow> onCanvasMouseMove e (p\<lparr>hoveredAnnotationIds := ids\<rparr>) pos' = [])"
proof (intro conjI allI impI)
  assume "set (hoveredAnnotationIds p) \<noteq> set ids"
  then show "onCanvasMouseMove e p pos = [HoverAnnotation (windowId p) ids]"
    by (simp add: onCanvasMouseMove_on_canvas [OF cv] ids)
next
  assume "set (hoveredAnnotationIds p) = set ids"
  then show "onCanvasMouseMove e p pos = []"
    by (simp add: onCanvasMouseMove_on_canvas [OF cv] ids)
next
  show "set (hoveredAnnotationIds p) \<noteq> set ids
          \<longleftrightarrow> set (xor_list (hoveredAnnotationIds p) ids) \<noteq> {}"
    by (auto simp: set_xor_list)
next
  fix pos' c'
  assume a: "canvasAtPoint (canvasWorld p) (pointFromPixel e pos') = Some c'
       \<and> set (map res_id (annotationsAtPoint e p c' (pointFromPixel e pos'))) = set ids"
  then have cv': "canvasAtPoint (canvasWorld (p\<lparr>hoveredAnnotationIds := ids\<rparr>)) (pointFromPixel e pos')
                    = Some c'"
    by simp
  show "onCanvasMouseMove e (p\<lparr>hoveredAnnotationIds := ids\<rparr>) pos' = []"
    using a by (simp add: onCanvasMouseMove_on_canvas [OF cv'] annotationsAtPoint_hovered)
qed

theorem hover_iff_changed_witness:
  "canvasAtPoint (canvasWorld (ex_props [ex_big] [])) (pointFromPixel ex_env ex_click) = Some ex_canvas
   \<and> [''big''] = map res_id (annotationsAtPoint ex_env (ex_props [ex_big] []) ex_canvas
                              (pointFromPixel ex_env ex_click))
   \<and> onCanvasMouseMove ex_env (ex_props [ex_big] []) ex_click = [HoverAnnotation ''w1'' [''big'']]
   \<and> onCanvasMouseMove ex_env (ex_props [ex_big] [''big'']) ex_click = []"
proof -
  have h1: "canvasAtPoint (canvasWorld (ex_props [ex_big] [])) (pointFromPixel ex_env ex_click)
              = Some ex_canvas"
    by (simp add: ex_pointFromPixel ex_canvasAtPoint)
  have h2: "[''big''] = map res_id (annotationsAtPoint ex_env (ex_props [ex_big] []) ex_canvas
                              (pointFromPixel ex_env ex_click))"
    by (simp add: ex_pointFromPixel ex_annos_big) (simp add: ex_big_def)
  note t = hover_iff_changed [OF h1 h2]
  have w: "windowId (ex_props [ex_big] []) = ''w1''" and hv: "hoveredAnnotationIds (ex_props [ex_big] []) = []"
    by (simp_all add: ex_props_def)
  have upd: "(ex_props [ex_big] [])\<lparr>hoveredAnnotationIds := [''big'']\<rparr> = ex_props [ex_big] [''big'']"
    by (simp add: ex_props_def)
  have a: "onCanvasMouseMove ex_env (ex_props [ex_big] []) ex_click = [HoverAnnotation ''w1'' [''big'']]"
    using t by (simp add: w hv)
  from t have "canvasAtPoint (canvasWorld (ex_props [ex_big] [])) (pointFromPixel ex_env ex_click)
                 = Some ex_canvas
               \<and> set (map res_id (annotationsAtPoint ex_env (ex_props [ex_big] []) ex_canvas
                              (pointFromPixel ex_env ex_click))) = set [''big'']
               \<longrightarrow> onCanvasMouseMove ex_env ((ex_props [ex_big] [])\<lparr>hoveredAnnotationIds := [''big'']\<rparr>)
                     ex_click = []"
    by blast
  moreover have "canvasAtPoint (canvasWorld (ex_props [ex_big] [])) (pointFromPixel ex_env ex_click)
                 = Some ex_canvas
               \<and> set (map res_id (annotationsAtPoint ex_env (ex_props [ex_big] []) ex_canvas
                              (pointFromPixel ex_env ex_click))) = set [''big'']"
    using h1 h2 [symmetric] by (simp only: simp_thms)
  ultimately have "onCanvasMouseMove ex_env ((ex_props [ex_big] [])\<lparr>hoveredAnnotationIds := [''big'']\<rparr>)
                     ex_click = []"
    by (rule mp)
  then have b: "onCanvasMouseMove ex_env (ex_props [ex_big] [''big'']) ex_click = []"
    by (simp only: upd)
  from h1 h2 a b show ?thesis by (intro conjI)
qed

text \<open>
  C10. A mouse move to a point outside all canvases (\<open>canvasAtPoint\<close> answers \<open>null\<close>) calls
  nothing: no hover notification is made, whatever the hovered ids of the props are, and the
  component is left as it was.
\<close>

theorem mouse_move_off_canvas_silent:
  assumes "canvasAtPoint (canvasWorld p) (pointFromPixel e pos) = None"
  shows "onCanvasMouseMove e p pos = []
         \<and> dispatch e (CanvasMouseMove p pos) this = (this, [])"
  using assms by (simp add: onCanvasMouseMove_def)

theorem mouse_move_off_canvas_silent_witness:
  "canvasAtPoint (canvasWorld (ex_props [ex_big] [''big''])) (pointFromPixel ex_env ex_off) = None
   \<and> hoveredAnnotationIds (ex_props [ex_big] [''big'']) = [''big'']
   \<and> onCanvasMouseMove ex_env (ex_props [ex_big] [''big'']) ex_off = []
   \<and> dispatch ex_env (CanvasMouseMove (ex_props [ex_big] [''big'']) ex_off) ex_this = (ex_this, [])"
proof -
  have h: "canvasAtPoint (canvasWorld (ex_props [ex_big] [''big''])) (pointFromPixel ex_env ex_off) = None"
    by (simp add: ex_pointFromPixel ex_props_def ex_world_def ex_off_def)
  have "hoveredAnnotationIds (ex_props [ex_big] [''big'']) = [''big'']"
    by (simp add: ex_props_def)
  with h mouse_move_off_canvas_silent [OF h, of ex_this] show ?thesis by (intro conjI) simp_all
qed

section \<open>Properties of viewport synchronisation\<close>

lemma Math_round_round: "Math_round v = round v"
  by (simp add: Math_round_def round_def)

text \<open>
  C8. On \<open>animation-finish\<close> the component calls \<open>updateViewport\<close> once, with \<open>x\<close> and \<open>y\<close>
  the viewer's centre spring targets rounded by \<open>Math.round\<close>, each an integer nearest to
  the target, and \<open>zoom\<close> the zoom spring target as it is; the viewer's own spring targets
  are not changed by the handlers.
\<close>

theorem viewport_forwarded_rounded:
  "dispatch e (AnimationFinish p) this =
     (this\<lparr>osdUpdating := False\<rparr>,
      [UpdateViewport (windowId p)
         \<lparr>vp_x = of_int (Math_round (centerSpringX (viewport this))),
          vp_y = of_int (Math_round (centerSpringY (viewport this))),
          vp_zoom = zoomSpring (viewport this)\<rparr>])
   \<and> viewport (fst (dispatch e (AnimationFinish p) this)) = viewport this
   \<and> (\<forall>k. \<bar>of_int (Math_round (centerSpringX (viewport this))) - centerSpringX (viewport this)\<bar>
           \<le> \<bar>of_int k - centerSpringX (viewport this)\<bar>)
   \<and> (\<forall>k. \<bar>of_int (Math_round (centerSpringY (viewport this))) - centerSpringY (viewport this)\<bar>
           \<le> \<bar>of_int k - centerSpringY (viewport this)\<bar>)"
proof -
  have near: "\<bar>of_int (Math_round v) - v\<bar> \<le> \<bar>of_int k - v\<bar>" for v :: real and k :: int
    using round_diff_minimal [of v k] by (simp add: Math_round_round abs_minus_commute)
  show ?thesis
    by (simp add: onViewportChange_def near)
qed

theorem viewport_forwarded_rounded_witness:
  "dispatch ex_env (AnimationFinish (ex_props [] [])) ex_this =
     (ex_this\<lparr>osdUpdating := False\<rparr>,
      [UpdateViewport ''w1'' \<lparr>vp_x = 10, vp_y = - 2, vp_zoom = 1.7\<rparr>])
   \<and> viewport (fst (dispatch ex_env (AnimationFinish (ex_props [] [])) ex_this))
       = \<lparr>centerSpringX = 10.4, centerSpringY = - 2.5, zoomSpring = 1.7\<rparr>"
proof -
  have w: "windowId (ex_props [] []) = ''w1''" by (simp add: ex_props_def)
  have v: "viewport ex_this = \<lparr>centerSpringX = 10.4, centerSpringY = - 2.5, zoomSpring = 1.7\<rparr>"
    by (simp add: ex_this_def)
  from viewport_forwarded_rounded [of ex_env "ex_props [] []" ex_this]
  show ?thesis by (simp add: w v Math_round_def)
qed

lemma toggleAnnotation_no_pan_zoom:
  "x \<in> set (toggleAnnotation p t i) \<Longrightarrow> \<not> isPanOrZoom x"
  by (auto simp: toggleAnnotation_def split: if_splits)

lemma onCanvasClick_no_pan_zoom:
  "x \<in> set (onCanvasClick e p pos) \<Longrightarrow> \<not> isPanOrZoom x"
  unfolding onCanvasClick_def Let_def
  by (auto split: option.splits if_splits dest: toggleAnnotation_no_pan_zoom)

lemma onCanvasMouseMove_no_pan_zoom:
  "x \<in> set (onCanvasMouseMove e p pos) \<Longrightarrow> \<not> isPanOrZoom x"
  unfolding onCanvasMouseMove_def Let_def
  by (auto split: option.splits if_splits)

lemma componentDidUpdate_while_updating:
  "osdUpdating this \<Longrightarrow> x \<in> set (componentDidUpdate this p prevProps) \<Longrightarrow> \<not> isPanOrZoom x"
  unfolding componentDidUpdate_def Let_def
  by (auto split: option.splits if_splits)

lemma dispatch_while_updating:
  assumes "osdUpdating this" and "\<not> isAnimationFinish ev"
  shows "osdUpdating (fst (dispatch e ev this))
         \<and> (\<forall>x \<in> set (snd (dispatch e ev this)). \<not> isPanOrZoom x)"
proof (cases ev)
  case AnimationStart
  then show ?thesis by simp
next
  case (AnimationFinish p)
  with assms show ?thesis by simp
next
  case (ComponentDidUpdate p prevProps)
  with assms show ?thesis by (auto dest: componentDidUpdate_while_updating)
next
  case (CanvasClick p pos)
  with assms show ?thesis by (auto dest: onCanvasClick_no_pan_zoom)
next
  case (CanvasMouseMove p pos)
  with assms show ?thesis by (auto dest: onCanvasMouseMove_no_pan_zoom)
next
  case (ViewerMoved vp)
  with assms show ?thesis by simp
qed

lemma run_while_updating:
  "osdUpdating this \<Longrightarrow> \<forall>ev \<in> set evs. \<not> isAnimationFinish ev \<Longrightarrow>
     osdUpdating (fst (run e evs this)) \<and> (\<forall>x \<in> set (snd (run e evs this)). \<not> isPanOrZoom x)"
proof (induction evs arbitrary: this)
  case Nil
  then show ?case by simp
next
  case (Cons ev evs)
  obtain this' out where d: "dispatch e ev this = (this', out)" by (cases "dispatch e ev this")
  obtain this'' outs where r: "run e evs this' = (this'', outs)" by (cases "run e evs this'")
  from Cons.prems have nf: "\<not> isAnimationFinish ev" and rest: "\<forall>ev \<in> set evs. \<not> isAnimationFinish ev"
    by auto
  from dispatch_while_updating [OF Cons.prems(1) nf, of e] d
  have u': "osdUpdating this'" and o1: "\<forall>x \<in> set out. \<not> isPanOrZoom x" by auto
  from Cons.IH [OF u' rest] r
  have u'': "osdUpdating this''" and o2: "\<forall>x \<in> set outs. \<not> isPanOrZoom x" by auto
  show ?case using u'' o1 o2 by (auto simp: d r)
qed

lemma run_append:
  "run e (xs @ ys) this =
     (case run e xs this of (this', out) \<Rightarrow>
        (case run e ys this' of (this'', outs) \<Rightarrow> (this'', out @ outs)))"
  by (induction xs arbitrary: this) (auto split: prod.splits)

lemma updating_after_start: "osdUpdating (fst (run e (before @ [AnimationStart]) this))"
  by (simp add: run_append split: prod.splits)

text \<open>
  C7. From an \<open>animation-start\<close> on, and as long as no \<open>animation-finish\<close> arrives, the flag
  \<open>osdUpdating\<close> stays set and nothing the component does is a call of \<open>panTo\<close> or
  \<open>zoomTo\<close>, whatever updates of the props, clicks, mouse moves and viewer movements
  happen; and \<open>componentDidUpdate\<close> on an instance whose flag is set never calls \<open>panTo\<close> or
  \<open>zoomTo\<close>.
\<close>

theorem no_pan_zoom_while_animating:
  assumes "\<forall>ev \<in> set evs. \<not> isAnimationFinish ev"
  shows "(\<forall>x \<in> set (snd (run e evs (fst (run e (before @ [AnimationStart]) this)))).
            \<not> isPanOrZoom x)
         \<and> osdUpdating (fst (run e evs (fst (run e (before @ [AnimationStart]) this))))
         \<and> (\<forall>that p prevProps. osdUpdating that \<longrightarrow>
               (\<forall>x \<in> set (componentDidUpdate that p prevProps). \<not> isPanOrZoom x))"
proof -
  have r: "osdUpdating (fst (run e evs (fst (run e (before @ [AnimationStart]) this))))
      \<and> (\<forall>x \<in> set (snd (run e evs (fst (run e (before @ [AnimationStart]) this)))).
            \<not> isPanOrZoom x)"
    by (rule run_while_updating [OF updating_after_start assms])
  have u: "\<forall>that p prevProps. osdUpdating that \<longrightarrow>
               (\<forall>x \<in> set (componentDidUpdate that p prevProps). \<not> isPanOrZoom x)"
    using componentDidUpdate_while_updating by blast
  from r have a: "\<forall>x \<in> set (snd (run e evs (fst (run e (before @ [AnimationStart]) this)))).
            \<not> isPanOrZoom x"
    by (rule conjunct2)
  from r have b: "osdUpdating (fst (run e evs (fst (run e (before @ [AnimationStart]) this))))"
    by (rule conjunct1)
  from a b u show ?thesis by (intro conjI)
qed

theorem no_pan_zoom_while_animating_witness:
  "\<not> isAnimationFinish (ComponentDidUpdate ex_viewer_props (ex_props [] []))
   \<and> list_all (\<lambda>x. \<not> isPanOrZoom x)
        (snd (run ex_env [ComponentDidUpdate ex_viewer_props (ex_props [] [])]
               (fst (run ex_env ([] @ [AnimationStart]) ex_this))))
   \<and> osdUpdating (fst (run ex_env [ComponentDidUpdate ex_viewer_props (ex_props [] [])]
               (fst (run ex_env ([] @ [AnimationStart]) ex_this))))
   \<and> componentDidUpdate ex_this ex_viewer_props (ex_props [] [])
       = [PanTo \<lparr>vp_x = 3, vp_y = 4, vp_zoom = 2\<rparr> False,
          ZoomTo 2 \<lparr>vp_x = 3, vp_y = 4, vp_zoom = 2\<rparr> False]"
proof -
  have h: "\<forall>ev \<in> set [ComponentDidUpdate ex_viewer_props (ex_props [] [])]. \<not> isAnimationFinish ev"
    by simp
  have idle: "componentDidUpdate ex_this ex_viewer_props (ex_props [] [])
       = [PanTo \<lparr>vp_x = 3, vp_y = 4, vp_zoom = 2\<rparr> False,
          ZoomTo 2 \<lparr>vp_x = 3, vp_y = 4, vp_zoom = 2\<rparr> False]"
    by (simp add: componentDidUpdate_def annotationsMatch_def infoResponsesMatch_def
        nonTiledImagedMatch_def xor_list_def uniq_def ex_viewer_props_def ex_props_def ex_this_def)
  note t = no_pan_zoom_while_animating [OF h, of ex_env "[]" ex_this]
  from t have a: "\<forall>x \<in> set (snd (run ex_env [ComponentDidUpdate ex_viewer_props (ex_props [] [])]
               (fst (run ex_env ([] @ [AnimationStart]) ex_this)))). \<not> isPanOrZoom x"
    by (rule conjunct1)
  then have a': "list_all (\<lambda>x. \<not> isPanOrZoom x)
        (snd (run ex_env [ComponentDidUpdate ex_viewer_props (ex_props [] [])]
               (fst (run ex_env ([] @ [AnimationStart]) ex_this))))"
    by (simp only: list_all_iff)
  from t have b: "osdUpdating (fst (run ex_env [ComponentDidUpdate ex_viewer_props (ex_props [] [])]
               (fst (run ex_env ([] @ [AnimationStart]) ex_this))))"
    by (rule conjunct1 [OF conjunct2])
  have c: "\<not> isAnimationFinish (ComponentDidUpdate ex_viewer_props (ex_props [] []))" by simp
  from c a' b idle show ?thesis by (intro conjI)
qed

section \<open>Properties of thumbnail resolution\<close>

lemma string_of_nat_50: "string_of_nat 50 = ''50''"
  by (simp add: string_of_nat.simps [of 50] string_of_nat.simps [of 5] digit_char_def)

lemma string_of_nat_120: "string_of_nat 120 = ''120''"
  by (simp add: string_of_nat.simps [of 120] string_of_nat.simps [of 12] string_of_nat.simps [of "Suc 0"]
      digit_char_def)

lemma string_of_nat_150: "string_of_nat 150 = ''150''"
  by (simp add: string_of_nat.simps [of 150] string_of_nat.simps [of 15] string_of_nat.simps [of "Suc 0"]
      digit_char_def)

lemma string_of_nat_200: "string_of_nat 200 = ''200''"
  by (simp add: string_of_nat.simps [of 200] string_of_nat.simps [of 20] string_of_nat.simps [of 2]
      digit_char_def)

lemma bestFit_120: "bestFit 120 120 1000 2000 = (60, 120)"
  by (simp add: bestFit_def Math_round_def Let_def)

lemma bestFit_100: "bestFit 100 100 1000 2000 = (50, 100)"
  by (simp add: bestFit_def Math_round_def Let_def)

lemma bestFit_150_200: "bestFit 150 200 1000 2000 = (100, 200)"
  by (simp add: bestFit_def Math_round_def Let_def)

text \<open>
  C3. For the constraints \<open>{ maxWidth: 100, maxHeight: 100 }\<close> on an image of 1000 by 2000
  behind a level 2 image service, the floor of 120 applies: the URL is
  \<open>{serviceId}/full/!120,120/0/default.jpg\<close> and the resolved dimensions are 60 by 120, in
  the original ratio of 1 to 2. The resolver is modelled from the spec; the result is the one
  the repository's test expects.
\<close>

theorem thumbnail_minimum_size:
  "leafThumbnail
     \<lparr>image_id = i, image_width = Some 1000, image_height = Some 2000,
      image_service = Some \<lparr>service_id = sid, profile = Level2\<rparr>\<rparr>
     \<lparr>maxWidth = Some 100, maxHeight = Some 100\<rparr>
   = \<lparr>thumb_url = sid @ ''/full/!120,120/0/default.jpg'',
      thumb_width = Some 60, thumb_height = Some 120\<rparr>"
  by (simp add: leafThumbnail_def targetSize_def bestFit_120 bestFit_100 minDimension_def
      string_of_nat_120)

theorem thumbnail_minimum_size_witness:
  "leafThumbnail iiifLevel2Service \<lparr>maxWidth = Some 100, maxHeight = Some 100\<rparr>
   = \<lparr>thumb_url = ''http://example.com/full/!120,120/0/default.jpg'',
      thumb_width = Some 60, thumb_height = Some 120\<rparr>"
  using thumbnail_minimum_size [of "''arbitrary-url''" "''http://example.com''"]
  by (simp add: iiifLevel2Service_def)

text \<open>
  The other cases of the repository's tests that concern a leaf image: a level 1 service
  with \<open>maxWidth\<close> 150, a level 2 service with both constraints, no constraints, and a
  static image.
\<close>

lemma test_level1_maxWidth:
  "leafThumbnail iiifLevel1Service \<lparr>maxWidth = Some 150, maxHeight = None\<rparr>
     = \<lparr>thumb_url = ''http://example.com/full/150,/0/default.jpg'',
        thumb_width = Some 150, thumb_height = Some 300\<rparr>"
  by (simp add: leafThumbnail_def targetSize_def constraintSize_def minDimension_def
      iiifLevel1Service_def Math_round_def string_of_nat_150)

lemma test_level2_both:
  "leafThumbnail iiifLevel2Service \<lparr>maxWidth = Some 150, maxHeight = Some 200\<rparr>
     = \<lparr>thumb_url = ''http://example.com/full/!150,200/0/default.jpg'',
        thumb_width = Some 100, thumb_height = Some 200\<rparr>"
  by (simp add: leafThumbnail_def targetSize_def constraintSize_def minDimension_def
      iiifLevel2Service_def bestFit_150_200 string_of_nat_150 string_of_nat_200)

lemma test_level1_default:
  "thumb_url (leafThumbnail iiifLevel1Service \<lparr>maxWidth = None, maxHeight = None\<rparr>)
     = ''http://example.com/full/,120/0/default.jpg''"
  by (simp add: leafThumbnail_def targetSize_def constraintSize_def minDimension_def
      iiifLevel1Service_def Math_round_def string_of_nat_120)

lemma test_static:
  "leafThumbnail staticThumbnail c
     = \<lparr>thumb_url = ''http://example.com'', thumb_width = Some 50, thumb_height = Some 70\<rparr>"
  by (simp add: leafThumbnail_def staticThumbnail_def)



end
